theory Spec2Isabelle
  imports Main "HOL-Library.Multiset"
begin

section \<open>The user table of shadowsocks/mdb/models.py\<close>

text \<open>
  The module declares one peewee model, \<open>User\<close>, and a handful of class and instance
  methods on it. The table is modelled as the list of its rows in rowid order
  (\<open>user_id\<close> is the integer primary key, so it is the rowid); every method that
  touches the table takes the table and returns the new one next to its outcome. A raised
  exception is the \<open>Inl\<close> of a sum.

  Two things the methods depend on are not in the table and are parameters of the model:
  the content of the one set object that line 31 gives as the default of \<open>ip_list\<close>
  (every instance built by the constructor holds that same object), and the order in which
  the storage engine delivers the rows of a query that leaves it open.
\<close>

subsection \<open>Exceptions\<close>

text \<open>
  \<open>ValueError\<close> carries its \<open>args\<close> (the identification loop reads \<open>e.args[0]\<close>).
  \<open>RuntimeError port ts\<close> is the error of line 147, whose message is built from the port
  and the transport flag. \<open>OtherError\<close> stands for any exception class the module
  never names.
\<close>

datatype transport = TRANSPORT_TCP | TRANSPORT_UDP

datatype pyexc =
    ValueError "string list"
  | RuntimeError int transport
  | KeyError string
  | IndexError
  | IntegrityError string
  | OtherError string

subsection \<open>Rows\<close>

text \<open>
  \<open>candidate\<close> holds the six columns \<open>list_by_port\<close> selects; \<open>user\<close> extends it with
  the remaining columns, so a method that reads only \<open>self.user_id\<close> or \<open>self.ip_list\<close>
  accepts both a fully loaded instance and a partially loaded one. Python integers are
  unbounded, hence \<open>int\<close>.
\<close>

record candidate =
  user_id :: int
  "method" :: string
  password :: string
  enable :: bool
  ip_list :: "string set"
  access_order :: int

record user = candidate +
  port :: int
  speed_limit :: int
  need_sync :: bool
  tcp_conn_num :: int
  upload_traffic :: int
  download_traffic :: int

type_synonym db = "user list"

text \<open>\<open>User.update(...).where(cond).execute()\<close>: every row satisfying the condition is rewritten.\<close>

definition update_where :: "(user \<Rightarrow> bool) \<Rightarrow> (user \<Rightarrow> user) \<Rightarrow> db \<Rightarrow> db" where
  "update_where cond f tbl = map (\<lambda>r. if cond r then f r else r) tbl"

subsection \<open>Creating and updating users from definitions\<close>

text \<open>
  One element of the \<open>"users"\<close> array of a definitions payload. A key that the JSON
  object does not have is \<open>None\<close>.
\<close>

record user_data =
  d_user_id :: "int option"
  d_port :: "int option"
  d_method :: "string option"
  d_password :: "string option"
  d_enable :: "bool option"
  d_speed_limit :: "int option"

text \<open>
  \<open>cls.create(user_id=..., **defaults)\<close>: the columns without a default (\<open>port\<close>,
  \<open>method\<close>, \<open>password\<close>) are NOT NULL, \<open>password\<close> is unique; the other columns take
  the defaults of the field declarations (lines 24 to 34). The default of \<open>ip_list\<close> is
  the set object of line 31, whatever it holds at the time: \<open>ip_list_default\<close> is its
  content. The new row goes to its place in rowid order.
\<close>

definition create :: "string set \<Rightarrow> int \<Rightarrow> user_data \<Rightarrow> db \<Rightarrow> pyexc + (user \<times> db)" where
  "create ip_list_default uid data tbl =
     (case (d_port data, d_method data, d_password data) of
        (Some p, Some m, Some pw) \<Rightarrow>
          if pw \<in> set (map password tbl)
          then Inl (IntegrityError ''UNIQUE constraint failed: user.password'')
          else
            (let u = \<lparr>user_id = uid, method = m, password = pw,
                      enable = (case d_enable data of None \<Rightarrow> True | Some b \<Rightarrow> b),
                      ip_list = ip_list_default, access_order = 0,
                      port = p,
                      speed_limit = (case d_speed_limit data of None \<Rightarrow> 0 | Some s \<Rightarrow> s),
                      need_sync = False, tcp_conn_num = 0,
                      upload_traffic = 0, download_traffic = 0\<rparr>
             in Inr (u, insort_key user_id u tbl))
      | _ \<Rightarrow> Inl (IntegrityError ''NOT NULL constraint failed''))"

text \<open>\<open>cls.get_or_create(user_id=user_id, defaults=data)\<close>: the row and whether it was created.\<close>

definition get_or_create ::
  "string set \<Rightarrow> int \<Rightarrow> user_data \<Rightarrow> db \<Rightarrow> pyexc + ((user \<times> bool) \<times> db)" where
  "get_or_create ip_list_default uid defaults tbl =
     (case find (\<lambda>r. user_id r = uid) tbl of
        Some r \<Rightarrow> Inr ((r, False), tbl)
      | None \<Rightarrow>
          (case create ip_list_default uid defaults tbl of
             Inl e \<Rightarrow> Inl e
           | Inr (u, tbl') \<Rightarrow> Inr ((u, True), tbl')))"

text \<open>
  Modelled from the spec: \<open>BaseModel.update_from_dict\<close> is not among the source files.
  The spec has it apply only the allow-listed mutable fields of the incoming definition;
  the allow-list is \<open>__attr_accessible__\<close> of line 18, and \<open>user_id\<close> is protected.
\<close>

definition update_from_dict :: "user \<Rightarrow> user_data \<Rightarrow> user" where
  "update_from_dict u data =
     u\<lparr>port := (case d_port data of None \<Rightarrow> port u | Some p \<Rightarrow> p),
       method := (case d_method data of None \<Rightarrow> method u | Some m \<Rightarrow> m),
       password := (case d_password data of None \<Rightarrow> password u | Some pw \<Rightarrow> pw),
       enable := (case d_enable data of None \<Rightarrow> enable u | Some b \<Rightarrow> b),
       speed_limit := (case d_speed_limit data of None \<Rightarrow> speed_limit u | Some s \<Rightarrow> s)\<rparr>"

text \<open>
  \<open>user.save()\<close> on a fully loaded instance: an UPDATE of every column of the row with
  the instance's primary key; the unique index on \<open>password\<close> rejects a value another
  row holds.
\<close>

definition save :: "user \<Rightarrow> db \<Rightarrow> pyexc + db" where
  "save u tbl =
     (if \<exists>r \<in> set tbl. user_id r \<noteq> user_id u \<and> password r = password u
      then Inl (IntegrityError ''UNIQUE constraint failed: user.password'')
      else Inr (update_where (\<lambda>r. user_id r = user_id u) (\<lambda>r. u) tbl))"

text \<open>
  Lines 36 to 45. \<open>data.pop("user_id")\<close> raises \<open>KeyError\<close> on a missing key. The
  decorator \<open>db.atomic("EXCLUSIVE")\<close> rolls the table back when the body raises.
\<close>

definition create_or_update_user_from_data ::
  "string set \<Rightarrow> user_data \<Rightarrow> db \<Rightarrow> (pyexc + user) \<times> db" where
  "create_or_update_user_from_data ip_list_default data tbl =
     (case d_user_id data of
        None \<Rightarrow> (Inl (KeyError ''user_id''), tbl)
      | Some uid \<Rightarrow>
          (case get_or_create ip_list_default uid data tbl of
             Inl e \<Rightarrow> (Inl e, tbl)
           | Inr ((u, created), tbl1) \<Rightarrow>
               if \<not> created then
                 (let u' = update_from_dict u data in
                  case save u' tbl1 of
                    Inl e \<Rightarrow> (Inl e, tbl)
                  | Inr tbl2 \<Rightarrow> (Inr u', tbl2))
               else (Inr u, tbl1)))"

text \<open>
  Lines 63 to 74: the loop over \<open>data["users"]\<close>, shared by \<open>create_or_update_from_json\<close>
  and \<open>create_or_update_from_remote\<close>. An exception leaves the loop; what earlier
  iterations committed stays.
\<close>

fun create_or_update_from_json ::
  "string set \<Rightarrow> user_data list \<Rightarrow> db \<Rightarrow> (pyexc + unit) \<times> db" where
  "create_or_update_from_json ip_list_default [] tbl = (Inr (), tbl)"
| "create_or_update_from_json ip_list_default (user_data # rest) tbl =
     (case create_or_update_user_from_data ip_list_default user_data tbl of
        (Inl e, tbl') \<Rightarrow> (Inl e, tbl')
      | (Inr _, tbl') \<Rightarrow> create_or_update_from_json ip_list_default rest tbl')"

subsection \<open>Listing the candidates of a port\<close>

text \<open>
  Lines 47 to 61. The query selects six columns of the rows on the port and orders them
  by \<open>access_order\<close> descending. Line 60 gives no second sort key, so the order among
  rows of equal \<open>access_order\<close> is the engine's: \<open>plan\<close> is the order in which the
  engine delivers the rows on the port, any rearrangement of them, and the ordering by
  \<open>access_order\<close> is a stable sort of what is delivered.
\<close>

definition select_fields :: "user \<Rightarrow> candidate" where
  "select_fields r =
     \<lparr>user_id = user_id r, method = method r, password = password r,
      enable = enable r, ip_list = ip_list r, access_order = access_order r\<rparr>"

definition list_by_port :: "(user list \<Rightarrow> user list) \<Rightarrow> int \<Rightarrow> db \<Rightarrow> candidate list" where
  "list_by_port plan p tbl =
     sort_key (\<lambda>c. - access_order c)
       (map select_fields (plan (filter (\<lambda>r. port r = p) tbl)))"

subsection \<open>Accounting\<close>

text \<open>
  Lines 104 to 111. \<open>peername\<close> is \<open>None\<close> or a tuple whose first component is the host;
  the tuple is modelled as the list of its components. Line 108 adds the host to the set
  object \<open>self.ip_list\<close> in place. For an instance loaded by a query that object is the
  instance's own. For an instance built by the constructor or by \<open>create\<close> it is the
  default object of line 31 (\<open>holds_default\<close>), whose content is \<open>ip_list_default\<close>:
  then the default itself changes. The method returns the instance, the content of the
  default object and the table.
\<close>

definition record_ip ::
  "bool \<Rightarrow> 'a candidate_scheme \<Rightarrow> string list option \<Rightarrow> string set \<Rightarrow> db
     \<Rightarrow> 'a candidate_scheme \<times> string set \<times> db" where
  "record_ip holds_default self peername ip_list_default tbl =
     (case peername of
        None \<Rightarrow> (self, ip_list_default, tbl)
      | Some [] \<Rightarrow> (self, ip_list_default, tbl)
      | Some (host # _) \<Rightarrow>
          (let self' = self\<lparr>ip_list := insert host
                                         (if holds_default then ip_list_default else ip_list self)\<rparr>
           in (self',
               if holds_default then ip_list self' else ip_list_default,
               update_where (\<lambda>r. user_id r = user_id self')
                 (\<lambda>r. r\<lparr>ip_list := ip_list self', need_sync := True\<rparr>) tbl)))"

text \<open>Lines 113 to 119.\<close>

definition record_traffic :: "'a candidate_scheme \<Rightarrow> int \<Rightarrow> int \<Rightarrow> db \<Rightarrow> db" where
  "record_traffic self used_u used_d tbl =
     update_where (\<lambda>r. user_id r = user_id self)
       (\<lambda>r. r\<lparr>download_traffic := download_traffic r + used_d,
              upload_traffic := upload_traffic r + used_u,
              need_sync := True\<rparr>) tbl"

text \<open>Lines 121 to 125.\<close>

definition incr_tcp_conn_num :: "'a candidate_scheme \<Rightarrow> int \<Rightarrow> db \<Rightarrow> db" where
  "incr_tcp_conn_num self num tbl =
     update_where (\<lambda>r. user_id r = user_id self)
       (\<lambda>r. r\<lparr>tcp_conn_num := tcp_conn_num r + num, need_sync := True\<rparr>) tbl"

subsection \<open>Flushing the metrics\<close>

text \<open>One element of the \<open>"data"\<close> array posted to the remote; \<open>list(set)\<close> has no fixed order, so the addresses stay a set.\<close>

record metrics =
  m_user_id :: int
  m_ip_list :: "string set"
  m_tcp_conn_num :: int
  m_upload_traffic :: int
  m_download_traffic :: int

definition metrics_of :: "user \<Rightarrow> metrics" where
  "metrics_of r =
     \<lparr>m_user_id = user_id r, m_ip_list = ip_list r, m_tcp_conn_num = tcp_conn_num r,
      m_upload_traffic = upload_traffic r, m_download_traffic = download_traffic r\<rparr>"

text \<open>Lines 85 to 89, the transaction: select the rows to sync, then reset them.\<close>

definition flush_select_and_reset :: "db \<Rightarrow> metrics list \<times> db" where
  "flush_select_and_reset tbl =
     (map metrics_of (filter need_sync tbl),
      update_where need_sync
        (\<lambda>r. r\<lparr>ip_list := {}, upload_traffic := 0, download_traffic := 0,
               need_sync := False\<rparr>) tbl)"

text \<open>
  Lines 76 to 102. \<open>request\<close> is \<open>cls.http_session.request("post", url, json={"data": data})\<close>:
  given the posted list it returns the exception raised, if any.
\<close>

definition flush_metrics_to_remote ::
  "(metrics list \<Rightarrow> pyexc option) \<Rightarrow> db \<Rightarrow> (pyexc + unit) \<times> db" where
  "flush_metrics_to_remote request tbl =
     (let (users, tbl') = flush_select_and_reset tbl
      in (case request users of
            Some e \<Rightarrow> (Inl e, tbl')
          | None \<Rightarrow> (Inr (), tbl')))"

subsection \<open>Finding the user of a connection\<close>

text \<open>
  The cipher class is a parameter of the method: a constructor from the password, and
  the two decoders, each of which changes the cipher object or raises.
\<close>

record 'c cipher_cls =
  new_cipher :: "string \<Rightarrow> pyexc + 'c"
  decrypt :: "'c \<Rightarrow> string \<Rightarrow> pyexc + 'c"
  unpack :: "'c \<Rightarrow> string \<Rightarrow> pyexc + 'c"

text \<open>Lines 136 to 140, the body of the \<open>try\<close>.\<close>

definition try_body :: "'c cipher_cls \<Rightarrow> transport \<Rightarrow> string \<Rightarrow> candidate \<Rightarrow> pyexc + 'c" where
  "try_body cipher_cls ts_protocol first_data u =
     (case new_cipher cipher_cls (password u) of
        Inl e \<Rightarrow> Inl e
      | Inr cipher \<Rightarrow>
          if ts_protocol = TRANSPORT_TCP then decrypt cipher_cls cipher first_data
          else unpack cipher_cls cipher first_data)"

text \<open>
  Lines 134 to 145, the loop. Next to its outcome (an exception, or the matched user and
  cipher, or no match) it returns the candidates it has tried, in the order tried.
\<close>

fun trial_loop ::
  "'c cipher_cls \<Rightarrow> transport \<Rightarrow> string \<Rightarrow> candidate list
     \<Rightarrow> candidate list \<times> (pyexc + (candidate \<times> 'c) option)" where
  "trial_loop cipher_cls ts_protocol first_data [] = ([], Inr None)"
| "trial_loop cipher_cls ts_protocol first_data (u # rest) =
     (case try_body cipher_cls ts_protocol first_data u of
        Inr cipher \<Rightarrow> ([u], Inr (Some (u, cipher)))
      | Inl (ValueError []) \<Rightarrow> ([u], Inl IndexError)
      | Inl (ValueError (a # as)) \<Rightarrow>
          if a \<noteq> ''MAC check failed'' then ([u], Inl (ValueError (a # as)))
          else (let (tried, res) = trial_loop cipher_cls ts_protocol first_data rest
                in (u # tried, res))
      | Inl e \<Rightarrow> ([u], Inl e))"

text \<open>
  \<open>access_user.save()\<close> of line 152 on a partially loaded instance: an UPDATE of the
  loaded columns. \<open>fault\<close> is the exception the storage engine raises for this write, if
  any.
\<close>

definition save_candidate :: "pyexc option \<Rightarrow> candidate \<Rightarrow> db \<Rightarrow> pyexc + db" where
  "save_candidate fault c tbl =
     (case fault of
        Some e \<Rightarrow> Inl e
      | None \<Rightarrow>
          Inr (update_where (\<lambda>r. user_id r = user_id c)
                 (\<lambda>r. r\<lparr>method := method c, password := password c, enable := enable c,
                        ip_list := ip_list c, access_order := access_order c\<rparr>) tbl))"

text \<open>Lines 127 to 153; \<open>plan\<close> is handed on to the query of line 134.\<close>

definition find_access_user_and_cipher_by_data ::
  "(user list \<Rightarrow> user list) \<Rightarrow> int \<Rightarrow> 'c cipher_cls \<Rightarrow> transport \<Rightarrow> string
     \<Rightarrow> pyexc option \<Rightarrow> db \<Rightarrow> (pyexc + (candidate \<times> 'c)) \<times> db" where
  "find_access_user_and_cipher_by_data plan p cipher_cls ts_protocol first_data fault tbl =
     (case snd (trial_loop cipher_cls ts_protocol first_data (list_by_port plan p tbl)) of
        Inl e \<Rightarrow> (Inl e, tbl)
      | Inr None \<Rightarrow> (Inl (RuntimeError p ts_protocol), tbl)
      | Inr (Some (access_user, cipher)) \<Rightarrow>
          if enable access_user = False then (Inl (RuntimeError p ts_protocol), tbl)
          else
            (let access_user' = access_user\<lparr>access_order := access_order access_user + 1\<rparr>
             in case save_candidate fault access_user' tbl of
                  Inl e \<Rightarrow> (Inl e, tbl)
                | Inr tbl' \<Rightarrow> (Inr (access_user', cipher), tbl')))"

subsection \<open>Vocabulary of the claims\<close>

text \<open>
  The outcome of one trial is a MAC failure when it is a \<open>ValueError\<close> whose first
  argument is the string the handler of line 144 compares with.
\<close>

definition is_mac_failure :: "pyexc + 'c \<Rightarrow> bool" where
  "is_mac_failure res =
     (case res of
        Inl (ValueError (a # as)) \<Rightarrow> a = ''MAC check failed''
      | _ \<Rightarrow> False)"

text \<open>
  The constraints the field declarations put on the table: \<open>user_id\<close> is the primary
  key, \<open>password\<close> is unique.
\<close>

definition constraints_hold :: "db \<Rightarrow> bool" where
  "constraints_hold tbl = (distinct (map user_id tbl) \<and> distinct (map password tbl))"

text \<open>A definition is applied in a table that has its user, with every field the definition gives.\<close>

definition applied :: "user_data \<Rightarrow> db \<Rightarrow> bool" where
  "applied d tbl = (\<exists>r \<in> set tbl. d_user_id d = Some (user_id r) \<and> update_from_dict r d = r)"

text \<open>A row whose addresses or traffic counters are not at their default is marked for sync.\<close>

definition dirty_marked :: "db \<Rightarrow> bool" where
  "dirty_marked tbl =
     (\<forall>r \<in> set tbl.
        (ip_list r \<noteq> {} \<or> upload_traffic r \<noteq> 0 \<or> download_traffic r \<noteq> 0) \<longrightarrow> need_sync r)"

text \<open>
  The tables the methods of the module produce, starting from the empty one, as long as
  \<open>record_ip\<close> is called on instances loaded by a query only: then nothing adds to the
  default object of line 31, which stays empty. The accounting methods read only
  \<open>user_id\<close> and \<open>ip_list\<close> of \<open>self\<close>, so a partially loaded instance stands for any;
  the cipher object of the identification is a string; the engine may deliver the rows of
  the port in any order.
\<close>

inductive reachable :: "db \<Rightarrow> bool" where
  start: "reachable []"
| definitions: "reachable tbl \<Longrightarrow> reachable (snd (create_or_update_from_json {} ds tbl))"
| flush: "reachable tbl \<Longrightarrow> reachable (snd (flush_metrics_to_remote request tbl))"
| ip: "reachable tbl \<Longrightarrow>
       reachable (snd (snd (record_ip False (self :: candidate) peername {} tbl)))"
| traffic: "reachable tbl \<Longrightarrow> reachable (record_traffic (self :: candidate) used_u used_d tbl)"
| conn: "reachable tbl \<Longrightarrow> reachable (incr_tcp_conn_num (self :: candidate) num tbl)"
| find: "reachable tbl \<Longrightarrow>
         mset (plan (filter (\<lambda>r. port r = p) tbl)) = mset (filter (\<lambda>r. port r = p) tbl) \<Longrightarrow>
         reachable (snd (find_access_user_and_cipher_by_data plan p
                           (cipher_cls :: string cipher_cls) ts_protocol first_data fault tbl))"

subsection \<open>Sample data\<close>

text \<open>
  Two toy cipher classes whose cipher object is the key itself. Under \<open>key_cipher\<close> a
  chunk decodes exactly when it equals the key. \<open>strict_cipher\<close> also rejects a chunk
  shorter than the key with an error that is not a MAC failure.
\<close>

definition key_cipher :: "string cipher_cls" where
  "key_cipher =
     \<lparr>new_cipher = (\<lambda>pw. Inr pw),
      decrypt = (\<lambda>c data. if data = c then Inr c else Inl (ValueError [''MAC check failed''])),
      unpack = (\<lambda>c data. if data = c then Inr c else Inl (ValueError [''MAC check failed'']))\<rparr>"

definition strict_cipher :: "string cipher_cls" where
  "strict_cipher =
     \<lparr>new_cipher = (\<lambda>pw. Inr pw),
      decrypt = (\<lambda>c data. if length data < length c then Inl (ValueError [''Not enough data''])
                           else if data = c then Inr c
                           else Inl (ValueError [''MAC check failed''])),
      unpack = (\<lambda>c data. if length data < length c then Inl (ValueError [''Not enough data''])
                          else if data = c then Inr c
                          else Inl (ValueError [''MAC check failed'']))\<rparr>"

text \<open>A cipher class whose decoders raise a \<open>ValueError\<close> that carries no argument.\<close>

definition bare_cipher :: "string cipher_cls" where
  "bare_cipher =
     \<lparr>new_cipher = (\<lambda>pw. Inr pw),
      decrypt = (\<lambda>c data. Inl (ValueError [])),
      unpack = (\<lambda>c data. Inl (ValueError []))\<rparr>"

text \<open>
  The users of the spec's scenario on port 8388, a third one with a longer password, and
  one on another port.
\<close>

definition user_a :: user where
  "user_a = \<lparr>user_id = 1, method = ''aes-256-gcm'', password = ''pA'', enable = True,
             ip_list = {}, access_order = 0, port = 8388, speed_limit = 0,
             need_sync = False, tcp_conn_num = 0, upload_traffic = 0, download_traffic = 0\<rparr>"

definition user_b :: user where
  "user_b = \<lparr>user_id = 2, method = ''aes-256-gcm'', password = ''pB'', enable = False,
             ip_list = {}, access_order = 0, port = 8388, speed_limit = 0,
             need_sync = False, tcp_conn_num = 0, upload_traffic = 0, download_traffic = 0\<rparr>"

definition user_c :: user where
  "user_c = \<lparr>user_id = 3, method = ''aes-256-gcm'', password = ''secret'', enable = True,
             ip_list = {}, access_order = 0, port = 8388, speed_limit = 0,
             need_sync = False, tcp_conn_num = 0, upload_traffic = 0, download_traffic = 0\<rparr>"


text \<open>
  Definitions payloads: the definitions of A and of B, one without \<open>user_id\<close>, and a payload that
  names user 1 three times and hands a password of user 1 on to user 2.
\<close>

definition def_a :: user_data where
  "def_a = \<lparr>d_user_id = Some 1, d_port = Some 8388, d_method = Some ''aes-256-gcm'',
            d_password = Some ''pA'', d_enable = None, d_speed_limit = None\<rparr>"

definition def_b :: user_data where
  "def_b = \<lparr>d_user_id = Some 2, d_port = Some 8388, d_method = Some ''aes-256-gcm'',
            d_password = Some ''pB'', d_enable = Some False, d_speed_limit = None\<rparr>"

definition def_no_id :: user_data where
  "def_no_id = \<lparr>d_user_id = None, d_port = Some 8388, d_method = Some ''aes-256-gcm'',
               d_password = Some ''pX'', d_enable = None, d_speed_limit = None\<rparr>"

definition swap_payload :: "user_data list" where
  "swap_payload =
     [\<lparr>d_user_id = Some 1, d_port = Some 1, d_method = Some ''m'', d_password = Some ''c'',
       d_enable = None, d_speed_limit = None\<rparr>,
      \<lparr>d_user_id = Some 1, d_port = None, d_method = None, d_password = Some ''a'',
       d_enable = None, d_speed_limit = None\<rparr>,
      \<lparr>d_user_id = Some 1, d_port = Some 2, d_method = None, d_password = Some ''b'',
       d_enable = None, d_speed_limit = None\<rparr>,
      \<lparr>d_user_id = Some 2, d_port = Some 1, d_method = Some ''m'', d_password = Some ''a'',
       d_enable = None, d_speed_limit = None\<rparr>]"

definition swap_row :: "int \<Rightarrow> int \<Rightarrow> string \<Rightarrow> user" where
  "swap_row uid p pw =
     \<lparr>user_id = uid, method = ''m'', password = pw, enable = True,
      ip_list = {}, access_order = 0, port = p, speed_limit = 0,
      need_sync = False, tcp_conn_num = 0, upload_traffic = 0, download_traffic = 0\<rparr>"

section \<open>Properties\<close>

subsection \<open>The trial loop\<close>

lemma trial_loop_mac_failure:
  "is_mac_failure (try_body cls ts data u) \<Longrightarrow>
   trial_loop cls ts data (u # rest) =
     (u # fst (trial_loop cls ts data rest), snd (trial_loop cls ts data rest))"
  by (auto simp: is_mac_failure_def split: sum.splits pyexc.splits list.splits prod.splits)

lemma trial_loop_hard_error:
  "try_body cls ts data u = Inl e \<Longrightarrow> \<not> is_mac_failure (try_body cls ts data u) \<Longrightarrow>
   trial_loop cls ts data (u # rest) =
     ([u], Inl (if e = ValueError [] then IndexError else e))"
  by (auto simp: is_mac_failure_def split: sum.splits pyexc.splits list.splits prod.splits)

lemma trial_loop_decoded:
  "try_body cls ts data u = Inr c \<Longrightarrow>
   trial_loop cls ts data (u # rest) = ([u], Inr (Some (u, c)))"
  by simp

lemma trial_loop_skip_prefix:
  "\<forall>v \<in> set pre. is_mac_failure (try_body cls ts data v) \<Longrightarrow>
   trial_loop cls ts data (pre @ rest) =
     (pre @ fst (trial_loop cls ts data rest), snd (trial_loop cls ts data rest))"
proof (induction pre)
  case Nil
  then show ?case by simp
next
  case (Cons a pre)
  then show ?case by (simp add: trial_loop_mac_failure del: trial_loop.simps)
qed

lemma trial_loop_all_mac_failure:
  "\<forall>u \<in> set cands. is_mac_failure (try_body cls ts data u) \<Longrightarrow>
   trial_loop cls ts data cands = (cands, Inr None)"
  using trial_loop_skip_prefix [of cands cls ts data "[]"] by simp

lemma trial_loop_first_decoded:
  assumes "\<forall>v \<in> set pre. is_mac_failure (try_body cls ts data v)"
    and "try_body cls ts data u = Inr c"
  shows "trial_loop cls ts data (pre @ u # post) = (pre @ [u], Inr (Some (u, c)))"
  using trial_loop_skip_prefix [OF assms(1), of "u # post"] trial_loop_decoded [OF assms(2), of post]
  by (simp del: trial_loop.simps)

lemma trial_loop_first_hard_error:
  assumes "\<forall>v \<in> set pre. is_mac_failure (try_body cls ts data v)"
    and "try_body cls ts data u = Inl e" and "\<not> is_mac_failure (try_body cls ts data u)"
  shows "trial_loop cls ts data (pre @ u # post) =
           (pre @ [u], Inl (if e = ValueError [] then IndexError else e))"
  using trial_loop_skip_prefix [OF assms(1), of "u # post"]
        trial_loop_hard_error [OF assms(2,3), of post]
  by (simp del: trial_loop.simps)

lemma first_not_mac_failure:
  "\<not> (\<forall>u \<in> set cands. is_mac_failure (f u)) \<Longrightarrow>
   \<exists>pre u post. cands = pre @ u # post \<and> (\<forall>v \<in> set pre. is_mac_failure (f v)) \<and>
      \<not> is_mac_failure (f u)"
  using split_list_first_prop [of cands "\<lambda>u. \<not> is_mac_failure (f u)"] by auto

lemma list_by_port_mset:
  "mset (plan (filter (\<lambda>r. port r = p) tbl)) = mset (filter (\<lambda>r. port r = p) tbl) \<Longrightarrow>
   mset (list_by_port plan p tbl) = mset (map select_fields (filter (\<lambda>r. port r = p) tbl))"
  by (simp add: list_by_port_def)

lemma find_access_user_by_loop:
  "find_access_user_and_cipher_by_data plan p cls ts data fault tbl =
     (case snd (trial_loop cls ts data (list_by_port plan p tbl)) of
        Inl e \<Rightarrow> (Inl e, tbl)
      | Inr None \<Rightarrow> (Inl (RuntimeError p ts), tbl)
      | Inr (Some (u, c)) \<Rightarrow>
          if \<not> enable u then (Inl (RuntimeError p ts), tbl)
          else (case fault of
                  Some e \<Rightarrow> (Inl e, tbl)
                | None \<Rightarrow>
                    (Inr (u\<lparr>access_order := access_order u + 1\<rparr>, c),
                     update_where (\<lambda>r. user_id r = user_id u)
                       (\<lambda>r. r\<lparr>method := method u, password := password u, enable := enable u,
                              ip_list := ip_list u, access_order := access_order u + 1\<rparr>) tbl)))"
  by (simp add: find_access_user_and_cipher_by_data_def save_candidate_def Let_def
           split: sum.splits option.splits prod.splits)

text \<open>The candidate lists of the sample tables, and the trials the examples run.\<close>

lemma cands_a: "list_by_port id 8388 [user_a] = [select_fields user_a]"
  by (simp add: list_by_port_def user_a_def select_fields_def)

lemma cands_ab: "list_by_port id 8388 [user_a, user_b] = [select_fields user_a, select_fields user_b]"
  by (simp add: list_by_port_def user_a_def user_b_def select_fields_def)

lemma cands_ac: "list_by_port id 8388 [user_a, user_c] = [select_fields user_a, select_fields user_c]"
  by (simp add: list_by_port_def user_a_def user_c_def select_fields_def)

lemma try_a_pB:
  "try_body key_cipher TRANSPORT_TCP ''pB'' (select_fields user_a) = Inl (ValueError [''MAC check failed''])"
  by (simp add: try_body_def key_cipher_def select_fields_def user_a_def)

lemma try_b_pB: "try_body key_cipher TRANSPORT_TCP ''pB'' (select_fields user_b) = Inr ''pB''"
  by (simp add: try_body_def key_cipher_def select_fields_def user_b_def)

lemma try_a_pA: "try_body key_cipher TRANSPORT_TCP ''pA'' (select_fields user_a) = Inr ''pA''"
  by (simp add: try_body_def key_cipher_def select_fields_def user_a_def)

lemma try_a_zz:
  "try_body strict_cipher TRANSPORT_UDP ''zz'' (select_fields user_a) = Inl (ValueError [''MAC check failed''])"
  by (simp add: try_body_def strict_cipher_def select_fields_def user_a_def)

lemma try_c_zz:
  "try_body strict_cipher TRANSPORT_UDP ''zz'' (select_fields user_c) = Inl (ValueError [''Not enough data''])"
  by (simp add: try_body_def strict_cipher_def select_fields_def user_c_def)

subsection \<open>Who is refused\<close>

text \<open>
  Claim C1, as stated: the method raises the error of line 147 if and only if no
  candidate decodes the chunk or the first one that decodes it is disabled. On a table
  with the single user A and a chunk too short for \<open>strict_cipher\<close>, no candidate
  decodes the chunk, yet the method raises the cipher's \<open>ValueError\<close>, not the error of
  line 147.
\<close>

theorem find_access_user_hard_error_counterexample:
  "list_by_port id 8388 [user_a] = [select_fields user_a]
   \<and> try_body strict_cipher TRANSPORT_TCP [] (select_fields user_a)
       = Inl (ValueError [''Not enough data''])
   \<and> fst (find_access_user_and_cipher_by_data id 8388 strict_cipher TRANSPORT_TCP [] None [user_a])
       = Inl (ValueError [''Not enough data''])"
  by (simp add: find_access_user_and_cipher_by_data_def list_by_port_def try_body_def
        strict_cipher_def select_fields_def user_a_def)

text \<open>
  Claim C1, amended: provided that neither a trial nor the storage engine raises the
  error of line 147 itself, the method raises that error if and only if either every
  candidate of the port fails the MAC check, or the candidates before the first one that
  does not fail the MAC check are followed by one that decodes the chunk and is disabled.
  When every candidate fails the MAC check, the loop has tried exactly the candidates the
  query returned, each once and in order; they are the rows of the port, each once, when
  the engine delivers each row of the port once.
\<close>

theorem find_access_user_runtime_error_iff:
  fixes cls :: "'c cipher_cls"
  assumes cipher: "\<forall>u \<in> set (list_by_port plan p tbl). try_body cls ts data u \<noteq> Inl (RuntimeError p ts)"
    and store: "fault \<noteq> Some (RuntimeError p ts)"
  shows "(fst (find_access_user_and_cipher_by_data plan p cls ts data fault tbl) = Inl (RuntimeError p ts)
          \<longleftrightarrow> ((\<forall>u \<in> set (list_by_port plan p tbl). is_mac_failure (try_body cls ts data u))
               \<or> (\<exists>pre u post c. list_by_port plan p tbl = pre @ u # post
                     \<and> (\<forall>v \<in> set pre. is_mac_failure (try_body cls ts data v))
                     \<and> try_body cls ts data u = Inr c \<and> \<not> enable u)))
       \<and> ((\<forall>u \<in> set (list_by_port plan p tbl). is_mac_failure (try_body cls ts data u))
            \<longrightarrow> fst (trial_loop cls ts data (list_by_port plan p tbl)) = list_by_port plan p tbl)
       \<and> ((\<forall>u \<in> set (list_by_port plan p tbl). is_mac_failure (try_body cls ts data u))
            \<and> mset (plan (filter (\<lambda>r. port r = p) tbl)) = mset (filter (\<lambda>r. port r = p) tbl)
            \<longrightarrow> mset (fst (trial_loop cls ts data (list_by_port plan p tbl)))
                  = mset (map select_fields (filter (\<lambda>r. port r = p) tbl)))"
proof -
  let ?cands = "list_by_port plan p tbl"
  let ?trial = "try_body cls ts data"
  let ?all = "\<forall>u \<in> set ?cands. is_mac_failure (?trial u)"
  let ?dis = "\<exists>pre u post c. ?cands = pre @ u # post
                     \<and> (\<forall>v \<in> set pre. is_mac_failure (?trial v))
                     \<and> ?trial u = Inr c \<and> \<not> enable u"
  let ?lhs = "fst (find_access_user_and_cipher_by_data plan p cls ts data fault tbl)
                = Inl (RuntimeError p ts)"
  have trace: "?all \<longrightarrow> fst (trial_loop cls ts data ?cands) = ?cands"
    by (simp add: trial_loop_all_mac_failure)
  have rows: "?all \<and> mset (plan (filter (\<lambda>r. port r = p) tbl)) = mset (filter (\<lambda>r. port r = p) tbl)
            \<longrightarrow> mset (fst (trial_loop cls ts data ?cands))
                  = mset (map select_fields (filter (\<lambda>r. port r = p) tbl))"
    using trace by (auto simp: list_by_port_mset)
  have iff: "?lhs \<longleftrightarrow> (?all \<or> ?dis)"
  proof (cases ?all)
    case True
    then have "trial_loop cls ts data ?cands = (?cands, Inr None)"
      by (rule trial_loop_all_mac_failure)
    then have ?lhs by (simp add: find_access_user_by_loop)
    then show ?thesis using True by blast
  next
    case False
    then obtain pre u post where d: "?cands = pre @ u # post"
      "\<forall>v \<in> set pre. is_mac_failure (?trial v)" "\<not> is_mac_failure (?trial u)"
      using first_not_mac_failure [of ?cands ?trial] by blast
    have u_in: "u \<in> set ?cands" using d(1) by simp
    show ?thesis
    proof (cases "?trial u")
      case (Inl e)
      have loop: "trial_loop cls ts data ?cands
                    = (pre @ [u], Inl (if e = ValueError [] then IndexError else e))"
        using trial_loop_first_hard_error [OF d(2) Inl d(3), of post] d(1) by simp
      have "e \<noteq> RuntimeError p ts" using cipher u_in Inl by auto
      then have "(if e = ValueError [] then IndexError else e) \<noteq> RuntimeError p ts"
        by simp
      then have nl: "\<not> ?lhs" using loop by (simp add: find_access_user_by_loop)
      have "\<not> ?dis"
      proof
        assume ?dis
        then obtain pre' u' post' c' where d': "?cands = pre' @ u' # post'"
          "\<forall>v \<in> set pre'. is_mac_failure (?trial v)" "?trial u' = Inr c'" by blast
        have "trial_loop cls ts data ?cands = (pre' @ [u'], Inr (Some (u', c')))"
          using trial_loop_first_decoded [OF d'(2,3), of post'] d'(1) by simp
        then show False using loop by simp
      qed
      then show ?thesis using nl False by blast
    next
      case (Inr c)
      have loop: "trial_loop cls ts data ?cands = (pre @ [u], Inr (Some (u, c)))"
        using trial_loop_first_decoded [OF d(2) Inr, of post] d(1) by simp
      have l: "?lhs \<longleftrightarrow> \<not> enable u"
        using loop store by (cases fault) (auto simp add: find_access_user_by_loop)
      have "?dis \<longleftrightarrow> \<not> enable u"
      proof
        assume ?dis
        then obtain pre' u' post' c' where d': "?cands = pre' @ u' # post'"
          "\<forall>v \<in> set pre'. is_mac_failure (?trial v)" "?trial u' = Inr c'" "\<not> enable u'"
          by blast
        have "trial_loop cls ts data ?cands = (pre' @ [u'], Inr (Some (u', c')))"
          using trial_loop_first_decoded [OF d'(2,3), of post'] d'(1) by simp
        then have "u' = u" using loop by simp
        then show "\<not> enable u" using d'(4) by simp
      next
        assume "\<not> enable u"
        then show ?dis using d(1,2) Inr by blast
      qed
      then show ?thesis using l False by blast
    qed
  qed
  show ?thesis using iff trace rows by blast
qed

text \<open>The scenario of the spec: a session under B's key, B disabled, is refused.\<close>

theorem find_access_user_runtime_error_iff_witness:
  "list_by_port id 8388 [user_a, user_b] = [select_fields user_a, select_fields user_b]
   \<and> try_body key_cipher TRANSPORT_TCP ''pB'' (select_fields user_a)
       = Inl (ValueError [''MAC check failed''])
   \<and> try_body key_cipher TRANSPORT_TCP ''pB'' (select_fields user_b) = Inr ''pB''
   \<and> enable (select_fields user_b) = False
   \<and> fst (find_access_user_and_cipher_by_data id 8388 key_cipher TRANSPORT_TCP ''pB'' None
             [user_a, user_b]) = Inl (RuntimeError 8388 TRANSPORT_TCP)"
proof -
  have h1: "\<forall>u \<in> set (list_by_port id 8388 [user_a, user_b]).
       try_body key_cipher TRANSPORT_TCP ''pB'' u \<noteq> Inl (RuntimeError 8388 TRANSPORT_TCP)"
    by (simp add: cands_ab try_a_pB try_b_pB)
  have h2: "(None :: pyexc option) \<noteq> Some (RuntimeError 8388 TRANSPORT_TCP)" by simp
  have e: "enable (select_fields user_b) = False"
    by (simp add: select_fields_def user_b_def)
  have "list_by_port id 8388 [user_a, user_b] = [select_fields user_a] @ select_fields user_b # []
        \<and> (\<forall>v \<in> set [select_fields user_a].
              is_mac_failure (try_body key_cipher TRANSPORT_TCP ''pB'' v))
        \<and> try_body key_cipher TRANSPORT_TCP ''pB'' (select_fields user_b) = Inr ''pB''
        \<and> \<not> enable (select_fields user_b)"
    by (simp add: cands_ab try_a_pB try_b_pB is_mac_failure_def e)
  then have "\<exists>pre u post c. list_by_port id 8388 [user_a, user_b] = pre @ u # post
        \<and> (\<forall>v \<in> set pre. is_mac_failure (try_body key_cipher TRANSPORT_TCP ''pB'' v))
        \<and> try_body key_cipher TRANSPORT_TCP ''pB'' u = Inr c \<and> \<not> enable u"
    by blast
  then have "fst (find_access_user_and_cipher_by_data id 8388 key_cipher TRANSPORT_TCP ''pB'' None
             [user_a, user_b]) = Inl (RuntimeError 8388 TRANSPORT_TCP)"
    using find_access_user_runtime_error_iff [OF h1 h2] by blast
  then show ?thesis using cands_ab try_a_pB try_b_pB e by simp
qed

subsection \<open>Errors inside the loop, and the write after it\<close>

text \<open>
  What the handler of lines 143 to 145 does with the outcome of a trial: a MAC failure
  makes the loop go on with the candidates after it; anything else ends the loop at that
  candidate, none after it is tried, and the method raises at once without touching the
  table. It raises the trial's exception, except for a \<open>ValueError\<close> without arguments:
  there reading \<open>e.args[0]\<close> in the handler raises \<open>IndexError\<close>.
\<close>

lemma trial_loop_error_outcomes:
  assumes cands: "list_by_port plan p tbl = pre @ u # post"
    and pre: "\<forall>v \<in> set pre. is_mac_failure (try_body cls ts data v)"
  shows "(is_mac_failure (try_body cls ts data u) \<longrightarrow>
            trial_loop cls ts data (list_by_port plan p tbl)
              = (pre @ u # fst (trial_loop cls ts data post), snd (trial_loop cls ts data post)))
       \<and> (\<forall>e. try_body cls ts data u = Inl e \<and> \<not> is_mac_failure (try_body cls ts data u) \<longrightarrow>
            trial_loop cls ts data (list_by_port plan p tbl)
              = (pre @ [u], Inl (if e = ValueError [] then IndexError else e))
          \<and> find_access_user_and_cipher_by_data plan p cls ts data fault tbl
              = (Inl (if e = ValueError [] then IndexError else e), tbl))"
proof -
  have a: "trial_loop cls ts data (list_by_port plan p tbl)
              = (pre @ u # fst (trial_loop cls ts data post), snd (trial_loop cls ts data post))"
    if "is_mac_failure (try_body cls ts data u)"
  proof -
    have "\<forall>v \<in> set (pre @ [u]). is_mac_failure (try_body cls ts data v)"
      using pre that by simp
    from trial_loop_skip_prefix [OF this, of post] show ?thesis using cands by simp
  qed
  have b: "trial_loop cls ts data (list_by_port plan p tbl)
              = (pre @ [u], Inl (if e = ValueError [] then IndexError else e))
          \<and> find_access_user_and_cipher_by_data plan p cls ts data fault tbl
              = (Inl (if e = ValueError [] then IndexError else e), tbl)"
    if "try_body cls ts data u = Inl e" "\<not> is_mac_failure (try_body cls ts data u)" for e
  proof -
    have l: "trial_loop cls ts data (list_by_port plan p tbl)
              = (pre @ [u], Inl (if e = ValueError [] then IndexError else e))"
      using trial_loop_first_hard_error [OF pre that, of post] cands by simp
    then show ?thesis by (simp add: find_access_user_by_loop)
  qed
  show ?thesis using a b by blast
qed

text \<open>A MAC failure for A, then a chunk too short for C's key: the loop stops at C.\<close>

lemma trial_loop_error_outcomes_example:
  "list_by_port id 8388 [user_a, user_c] = [select_fields user_a, select_fields user_c]
   \<and> trial_loop strict_cipher TRANSPORT_UDP ''zz'' (list_by_port id 8388 [user_a, user_c])
       = ([select_fields user_a, select_fields user_c], Inl (ValueError [''Not enough data'']))
   \<and> find_access_user_and_cipher_by_data id 8388 strict_cipher TRANSPORT_UDP ''zz'' None [user_a, user_c]
       = (Inl (ValueError [''Not enough data'']), [user_a, user_c])"
proof -
  have c: "list_by_port id 8388 [user_a, user_c] = [select_fields user_a] @ select_fields user_c # []"
    by (simp add: cands_ac)
  have p: "\<forall>v \<in> set [select_fields user_a]. is_mac_failure (try_body strict_cipher TRANSPORT_UDP ''zz'' v)"
    by (simp add: try_a_zz is_mac_failure_def)
  have n: "\<not> is_mac_failure (try_body strict_cipher TRANSPORT_UDP ''zz'' (select_fields user_c))"
    by (simp add: try_c_zz is_mac_failure_def)
  show ?thesis
    using trial_loop_error_outcomes [OF c p, where fault = None]
      try_c_zz n cands_ac
    by simp
qed

text \<open>
  Claim C2: every error of a trial other than a MAC failure propagates to the caller.
  The handler misses one case. With a cipher class that raises a \<open>ValueError\<close> without
  arguments, the trial of A raises that error, and the method raises \<open>IndexError\<close>
  instead of it.
\<close>

theorem find_access_user_value_error_without_args:
  "try_body bare_cipher TRANSPORT_TCP ''pA'' (select_fields user_a) = Inl (ValueError [])
   \<and> find_access_user_and_cipher_by_data id 8388 bare_cipher TRANSPORT_TCP ''pA'' None [user_a]
       = (Inl IndexError, [user_a])"
  by (simp add: find_access_user_by_loop cands_a try_body_def bare_cipher_def)

text \<open>
  Claim C4, as stated: when persisting the incremented \<open>access_order\<close> fails, the
  method still returns the matched pair. With A matched and enabled and the write
  failing, the method raises the storage error.
\<close>

theorem find_access_user_save_failure_counterexample:
  "snd (trial_loop key_cipher TRANSPORT_TCP ''pA'' (list_by_port id 8388 [user_a, user_b]))
     = Inr (Some (select_fields user_a, ''pA''))
   \<and> enable (select_fields user_a) = True
   \<and> find_access_user_and_cipher_by_data id 8388 key_cipher TRANSPORT_TCP ''pA''
        (Some (OtherError ''database is locked'')) [user_a, user_b]
       = (Inl (OtherError ''database is locked''), [user_a, user_b])"
  by (simp add: find_access_user_by_loop cands_ab try_a_pA)
     (simp add: select_fields_def user_a_def)

text \<open>
  Claim C4, amended: line 152 is not guarded. When the loop has matched an enabled user
  and the write fails, the method raises the error of the write and the table is
  unchanged; when the write succeeds, the method returns the matched user with
  \<open>access_order\<close> one higher and the matched cipher, and the table is the one the write
  leaves.
\<close>

theorem find_access_user_save_outcome:
  assumes "snd (trial_loop cls ts data (list_by_port plan p tbl)) = Inr (Some (u, c))"
    and "enable u"
  shows "find_access_user_and_cipher_by_data plan p cls ts data (Some e) tbl = (Inl e, tbl)
       \<and> fst (find_access_user_and_cipher_by_data plan p cls ts data None tbl)
           = Inr (u\<lparr>access_order := access_order u + 1\<rparr>, c)
       \<and> save_candidate None (u\<lparr>access_order := access_order u + 1\<rparr>) tbl
           = Inr (snd (find_access_user_and_cipher_by_data plan p cls ts data None tbl))"
  using assms by (simp add: find_access_user_by_loop save_candidate_def)

theorem find_access_user_save_outcome_witness:
  "snd (trial_loop key_cipher TRANSPORT_TCP ''pA'' (list_by_port id 8388 [user_a, user_b]))
     = Inr (Some (select_fields user_a, ''pA''))
   \<and> enable (select_fields user_a) = True
   \<and> find_access_user_and_cipher_by_data id 8388 key_cipher TRANSPORT_TCP ''pA''
        (Some IndexError) [user_a, user_b] = (Inl IndexError, [user_a, user_b])
   \<and> find_access_user_and_cipher_by_data id 8388 key_cipher TRANSPORT_TCP ''pA'' None [user_a, user_b]
       = (Inr ((select_fields user_a)\<lparr>access_order := 1\<rparr>, ''pA''),
          [user_a\<lparr>access_order := 1\<rparr>, user_b])"
proof -
  have l: "snd (trial_loop key_cipher TRANSPORT_TCP ''pA'' (list_by_port id 8388 [user_a, user_b]))
     = Inr (Some (select_fields user_a, ''pA''))"
    by (simp add: cands_ab try_a_pA)
  have e: "enable (select_fields user_a)" by (simp add: select_fields_def user_a_def)
  have v: "access_order (select_fields user_a) = 0" by (simp add: select_fields_def user_a_def)
  have s: "save_candidate None ((select_fields user_a)\<lparr>access_order := 1\<rparr>) [user_a, user_b]
             = Inr [user_a\<lparr>access_order := 1\<rparr>, user_b]"
    by (simp add: save_candidate_def update_where_def select_fields_def user_a_def user_b_def)
  show ?thesis
    using find_access_user_save_outcome [OF l e, of IndexError] l e v s
    by (simp add: prod_eq_iff)
qed

subsection \<open>Accounting and flushing\<close>

lemma filter_user_id_distinct:
  "distinct (map user_id tbl) \<Longrightarrow> u \<in> set tbl \<Longrightarrow>
   filter (\<lambda>r. user_id r = user_id u) tbl = [u]"
proof (induction tbl)
  case Nil
  then show ?case by simp
next
  case (Cons a tbl)
  show ?case
  proof (cases "a = u")
    case True
    have "\<forall>r \<in> set tbl. user_id r \<noteq> user_id u"
      using Cons.prems True by (auto simp: image_iff)
    then have "filter (\<lambda>r. user_id r = user_id u) tbl = []"
      by (simp add: filter_empty_conv)
    then show ?thesis using True by simp
  next
    case False
    then have "u \<in> set tbl" using Cons.prems by simp
    moreover have "user_id a \<noteq> user_id u"
      using Cons.prems calculation by (auto simp: image_iff)
    ultimately show ?thesis using Cons by simp
  qed
qed

lemma drained_of_user:
  "filter (\<lambda>m. m_user_id m = k) (fst (flush_select_and_reset tbl))
     = map metrics_of (filter need_sync (filter (\<lambda>r. user_id r = k) tbl))"
  by (induction tbl) (auto simp: flush_select_and_reset_def metrics_of_def)

lemma filter_user_id_update_where:
  "(\<And>r. user_id (f r) = user_id r) \<Longrightarrow>
   filter (\<lambda>r. user_id r = k) (update_where c f tbl)
     = update_where c f (filter (\<lambda>r. user_id r = k) tbl)"
  by (induction tbl) (auto simp: update_where_def)

lemma filter_user_id_record_traffic:
  "filter (\<lambda>r. user_id r = k) (record_traffic self a b tbl)
     = record_traffic self a b (filter (\<lambda>r. user_id r = k) tbl)"
  unfolding record_traffic_def by (rule filter_user_id_update_where) simp

lemma filter_user_id_reset:
  "filter (\<lambda>r. user_id r = k) (snd (flush_select_and_reset tbl))
     = snd (flush_select_and_reset (filter (\<lambda>r. user_id r = k) tbl))"
  unfolding flush_select_and_reset_def snd_conv by (rule filter_user_id_update_where) simp

text \<open>
  Claim C7: for a user U of the table whose traffic counters are at their default,
  \<open>record_traffic(100, 200)\<close>, then \<open>record_traffic(50, 0)\<close>, then the transaction of
  the flush selects for U exactly one row, with upload 150 and download 200; the
  transaction of a second flush right after selects no row for U.
\<close>

theorem record_traffic_then_flush_scenario:
  assumes "distinct (map user_id tbl)" and "u \<in> set tbl"
    and "upload_traffic u = 0" and "download_traffic u = 0"
    and "user_id self = user_id u"
  shows "filter (\<lambda>m. m_user_id m = user_id u)
           (fst (flush_select_and_reset
                  (record_traffic self 50 0 (record_traffic self 100 200 tbl))))
         = [\<lparr>m_user_id = user_id u, m_ip_list = ip_list u, m_tcp_conn_num = tcp_conn_num u,
             m_upload_traffic = 150, m_download_traffic = 200\<rparr>]
       \<and> filter (\<lambda>m. m_user_id m = user_id u)
           (fst (flush_select_and_reset
                  (snd (flush_select_and_reset
                         (record_traffic self 50 0 (record_traffic self 100 200 tbl))))))
         = []"
proof -
  have f: "filter (\<lambda>r. user_id r = user_id u) tbl = [u]"
    using assms(1,2) by (rule filter_user_id_distinct)
  show ?thesis
    using assms(3,4,5)
    by (simp add: drained_of_user filter_user_id_record_traffic filter_user_id_reset f)
       (simp add: record_traffic_def update_where_def flush_select_and_reset_def metrics_of_def)
qed

theorem record_traffic_then_flush_scenario_witness:
  "distinct (map user_id [user_a, user_b]) \<and> user_a \<in> set [user_a, user_b]
   \<and> upload_traffic user_a = 0 \<and> download_traffic user_a = 0
   \<and> user_id (select_fields user_a) = user_id user_a
   \<and> filter (\<lambda>m. m_user_id m = 1)
        (fst (flush_select_and_reset
               (record_traffic (select_fields user_a) 50 0
                 (record_traffic (select_fields user_a) 100 200 [user_a, user_b]))))
      = [\<lparr>m_user_id = 1, m_ip_list = {}, m_tcp_conn_num = 0,
          m_upload_traffic = 150, m_download_traffic = 200\<rparr>]"
proof -
  have h: "distinct (map user_id [user_a, user_b])" "user_a \<in> set [user_a, user_b]"
    "upload_traffic user_a = 0" "download_traffic user_a = 0"
    "user_id (select_fields user_a) = user_id user_a"
    by (simp_all add: user_a_def user_b_def select_fields_def)
  have v: "user_id user_a = 1" "ip_list user_a = {}" "tcp_conn_num user_a = 0"
    by (simp_all add: user_a_def)
  show ?thesis
    using h record_traffic_then_flush_scenario [OF h] by (simp add: v)
qed

text \<open>
  Claim C6: the flush resets the selected rows in its transaction, before the request
  is made. When the request raises, the method raises the same exception, and the table
  is the one a successful flush leaves: no row is marked for sync, and the rows that were
  marked have lost their addresses and traffic counters.
\<close>

theorem flush_metrics_request_failure_loses_drained:
  assumes "request (map metrics_of (filter need_sync tbl)) = Some e"
  shows "fst (flush_metrics_to_remote request tbl) = Inl e
       \<and> snd (flush_metrics_to_remote request tbl)
           = snd (flush_metrics_to_remote (\<lambda>users. None) tbl)
       \<and> length (snd (flush_metrics_to_remote request tbl)) = length tbl
       \<and> (\<forall>i < length tbl.
             \<not> need_sync (snd (flush_metrics_to_remote request tbl) ! i)
           \<and> (need_sync (tbl ! i) \<longrightarrow>
                ip_list (snd (flush_metrics_to_remote request tbl) ! i) = {}
              \<and> upload_traffic (snd (flush_metrics_to_remote request tbl) ! i) = 0
              \<and> download_traffic (snd (flush_metrics_to_remote request tbl) ! i) = 0))"
  using assms
  by (simp add: flush_metrics_to_remote_def flush_select_and_reset_def update_where_def)

theorem flush_metrics_request_failure_loses_drained_witness:
  "(\<lambda>users. Some (OtherError ''connection refused''))
       (map metrics_of (filter need_sync (record_traffic (select_fields user_a) 100 200 [user_a])))
     = Some (OtherError ''connection refused'')
   \<and> upload_traffic (record_traffic (select_fields user_a) 100 200 [user_a] ! 0) = 100
   \<and> fst (flush_metrics_to_remote (\<lambda>users. Some (OtherError ''connection refused''))
            (record_traffic (select_fields user_a) 100 200 [user_a]))
       = Inl (OtherError ''connection refused'')
   \<and> upload_traffic (snd (flush_metrics_to_remote (\<lambda>users. Some (OtherError ''connection refused''))
            (record_traffic (select_fields user_a) 100 200 [user_a])) ! 0) = 0"
proof -
  let ?request = "\<lambda>users :: metrics list. Some (OtherError ''connection refused'')"
  let ?tbl = "record_traffic (select_fields user_a) 100 200 [user_a]"
  have h: "?request (map metrics_of (filter need_sync ?tbl)) = Some (OtherError ''connection refused'')"
    by simp
  have t: "length ?tbl = 1" "need_sync (?tbl ! 0)" "upload_traffic (?tbl ! 0) = 100"
    by (simp_all add: record_traffic_def update_where_def select_fields_def user_a_def)
  note c = flush_metrics_request_failure_loses_drained [of ?request ?tbl, OF h]
  have c1: "fst (flush_metrics_to_remote ?request ?tbl) = Inl (OtherError ''connection refused'')"
    using c by blast
  have "\<forall>i < length ?tbl. need_sync (?tbl ! i) \<longrightarrow>
          upload_traffic (snd (flush_metrics_to_remote ?request ?tbl) ! i) = 0"
    using c by blast
  then have c2: "upload_traffic (snd (flush_metrics_to_remote ?request ?tbl) ! 0) = 0"
    using t(1,2) by simp
  show ?thesis using c1 c2 t(3) by simp
qed

text \<open>
  Claim C10: \<open>record_ip\<close> with no peer name, or with an empty one, returns at line 107:
  neither the instance, nor the default set object, nor the table changes.
\<close>

theorem record_ip_without_peername_changes_nothing:
  "record_ip holds_default self None ip_list_default tbl = (self, ip_list_default, tbl)
   \<and> record_ip holds_default self (Some []) ip_list_default tbl = (self, ip_list_default, tbl)"
  by (simp add: record_ip_def)

subsection \<open>The candidates of a port\<close>




text \<open>
  Rows are kept in rowid order: B imported before A still comes after A in the table, and
  an engine that delivers the rows of the port in rowid order lists A first.
\<close>

lemma rowid_order_example:
  "create_or_update_from_json {} [def_b, def_a] [] = (Inr (), [user_a, user_b])
   \<and> list_by_port id 8388 (snd (create_or_update_from_json {} [def_b, def_a] []))
       = [select_fields user_a, select_fields user_b]"
  by (simp add: create_or_update_user_from_data_def get_or_create_def create_def Let_def
        def_a_def def_b_def list_by_port_def)
     (simp add: user_a_def user_b_def select_fields_def)

subsection \<open>Definitions payloads\<close>

lemma create_or_update_from_json_append:
  "create_or_update_from_json dflt (xs @ ys) tbl =
     (case create_or_update_from_json dflt xs tbl of
        (Inl e, tbl') \<Rightarrow> (Inl e, tbl')
      | (Inr _, tbl') \<Rightarrow> create_or_update_from_json dflt ys tbl')"
  by (induction xs arbitrary: tbl) (auto split: prod.splits sum.splits)

lemma create_or_update_user_rollback:
  "fst (create_or_update_user_from_data dflt d tbl) = Inl e \<Longrightarrow>
   snd (create_or_update_user_from_data dflt d tbl) = tbl"
  by (auto simp: create_or_update_user_from_data_def Let_def split: option.splits sum.splits prod.splits if_splits)

text \<open>
  Claim C5, as stated: a payload with a record that lacks \<open>user_id\<close> leaves the table
  as it was. On the empty table, the definition of A followed by a record without
  \<open>user_id\<close> raises \<open>KeyError\<close> and leaves A in the table.
\<close>

theorem create_or_update_from_json_partial_counterexample:
  "create_or_update_from_json {} [def_a, def_no_id] [] = (Inl (KeyError ''user_id''), [user_a])"
  by (simp add: create_or_update_user_from_data_def get_or_create_def create_def Let_def
        def_a_def def_no_id_def user_a_def)

text \<open>
  Claim C5, amended: each record is applied in a transaction of its own. A record
  without \<open>user_id\<close> raises \<open>KeyError\<close> and changes nothing itself, as does any record
  that raises; the payload stops there, the records before it stay applied, those after
  it are not applied.
\<close>

theorem create_or_update_from_json_per_record:
  assumes "fst (create_or_update_from_json dflt before tbl) = Inr ()"
    and "d_user_id bad = None"
  shows "create_or_update_user_from_data dflt bad tbl = (Inl (KeyError ''user_id''), tbl)
       \<and> create_or_update_from_json dflt (before @ bad # rest) tbl
           = (Inl (KeyError ''user_id''), snd (create_or_update_from_json dflt before tbl))
       \<and> (\<forall>d e. fst (create_or_update_user_from_data dflt d tbl) = Inl e \<longrightarrow>
                  snd (create_or_update_user_from_data dflt d tbl) = tbl)"
proof -
  have one: "create_or_update_user_from_data dflt bad t = (Inl (KeyError ''user_id''), t)" for t
    using assms(2) by (simp add: create_or_update_user_from_data_def)
  obtain t where t: "create_or_update_from_json dflt before tbl = (Inr (), t)"
    using assms(1) by (cases "create_or_update_from_json dflt before tbl") auto
  have "create_or_update_from_json dflt (before @ bad # rest) tbl = (Inl (KeyError ''user_id''), t)"
    by (simp add: create_or_update_from_json_append t one)
  then show ?thesis using one t create_or_update_user_rollback by auto
qed

theorem create_or_update_from_json_per_record_witness:
  "create_or_update_from_json {} [def_a] [] = (Inr (), [user_a])
   \<and> d_user_id def_no_id = None
   \<and> create_or_update_from_json {} ([def_a] @ def_no_id # [def_a]) []
       = (Inl (KeyError ''user_id''), [user_a])"
proof -
  have a: "create_or_update_from_json {} [def_a] [] = (Inr (), [user_a])"
    by (simp add: create_or_update_user_from_data_def get_or_create_def create_def Let_def
        def_a_def user_a_def)
  then have h1: "fst (create_or_update_from_json {} [def_a] []) = Inr ()" by simp
  have h2: "d_user_id def_no_id = None" by (simp add: def_no_id_def)
  show ?thesis
    using create_or_update_from_json_per_record [OF h1 h2, of "[def_a]"] a h2 by simp
qed

lemma find_user_id_distinct:
  "distinct (map user_id tbl) \<Longrightarrow> r \<in> set tbl \<Longrightarrow> find (\<lambda>x. user_id x = user_id r) tbl = Some r"
proof (induction tbl)
  case Nil
  then show ?case by simp
next
  case (Cons a tbl)
  then show ?case by (auto simp: image_iff)
qed

lemma same_user_id_same_row:
  "distinct (map user_id tbl) \<Longrightarrow> r \<in> set tbl \<Longrightarrow> x \<in> set tbl \<Longrightarrow> user_id x = user_id r \<Longrightarrow> x = r"
  by (meson distinct_map inj_onD)

lemma same_password_same_row:
  "distinct (map password tbl) \<Longrightarrow> r \<in> set tbl \<Longrightarrow> x \<in> set tbl \<Longrightarrow> password x = password r \<Longrightarrow> x = r"
  by (meson distinct_map inj_onD)

lemma update_where_same_row:
  "distinct (map user_id tbl) \<Longrightarrow> r \<in> set tbl \<Longrightarrow>
   update_where (\<lambda>x. user_id x = user_id r) (\<lambda>x. r) tbl = tbl"
  unfolding update_where_def
  by (rule map_idI) (auto dest: same_user_id_same_row)

lemma find_user_id_Some:
  "find (\<lambda>x. user_id x = uid) tbl = Some r \<Longrightarrow> r \<in> set tbl \<and> user_id r = uid"
  by (auto simp: find_Some_iff)

lemma find_user_id_None:
  "find (\<lambda>x. user_id x = uid) tbl = None \<Longrightarrow> uid \<notin> set (map user_id tbl)"
  by (auto simp: find_None_iff)

text \<open>The three ways one record can end.\<close>

lemma create_or_update_user_cases:
  assumes "create_or_update_user_from_data dflt d tbl = (res, tbl')"
  obtains
    (failed) e where "res = Inl e" "tbl' = tbl"
  | (created) uid u where "d_user_id d = Some uid" "uid \<notin> set (map user_id tbl)"
      "password u \<notin> set (map password tbl)" "user_id u = uid" "update_from_dict u d = u"
      "ip_list u = dflt \<and> upload_traffic u = 0 \<and> download_traffic u = 0 \<and> \<not> need_sync u"
      "res = Inr u" "tbl' = insort_key user_id u tbl"
  | (updated) uid r where "d_user_id d = Some uid" "r \<in> set tbl" "user_id r = uid"
      "\<forall>x \<in> set tbl. user_id x \<noteq> uid \<longrightarrow> password x \<noteq> password (update_from_dict r d)"
      "res = Inr (update_from_dict r d)"
      "tbl' = update_where (\<lambda>x. user_id x = uid) (\<lambda>x. update_from_dict r d) tbl"
proof (cases "d_user_id d")
  case None
  then show ?thesis using assms failed by (auto simp: create_or_update_user_from_data_def)
next
  case (Some uid)
  show ?thesis
  proof (cases "find (\<lambda>x. user_id x = uid) tbl")
    case None
    note nf = None
    show ?thesis
    proof (cases "create dflt uid d tbl")
      case (Inl e)
      then show ?thesis using assms Some nf failed
        by (auto simp: create_or_update_user_from_data_def get_or_create_def)
    next
      case (Inr p)
      obtain u t where p: "p = (u, t)" by (cases p)
      have r: "res = Inr u" "tbl' = t"
        using assms Some nf Inr p
        by (auto simp: create_or_update_user_from_data_def get_or_create_def)
      have c: "t = insort_key user_id u tbl" "password u \<notin> set (map password tbl)"
        "user_id u = uid" "update_from_dict u d = u"
        "ip_list u = dflt \<and> upload_traffic u = 0 \<and> download_traffic u = 0 \<and> \<not> need_sync u"
        using Inr p
        by (auto simp: create_def Let_def update_from_dict_def split: option.splits if_splits)
      show ?thesis using created [OF Some find_user_id_None [OF nf] c(2,3,4,5)] r c(1) by simp
    qed
  next
    case (Some r)
    note f = Some
    have rin: "r \<in> set tbl" "user_id r = uid" using find_user_id_Some [OF f] by simp_all
    show ?thesis
    proof (cases "save (update_from_dict r d) tbl")
      case (Inl e)
      then show ?thesis using assms \<open>d_user_id d = Some uid\<close> f failed
        by (auto simp: create_or_update_user_from_data_def get_or_create_def Let_def)
    next
      case (Inr t)
      have id: "user_id (update_from_dict r d) = uid" using rin by (simp add: update_from_dict_def)
      have r: "res = Inr (update_from_dict r d)" "tbl' = t"
        using assms \<open>d_user_id d = Some uid\<close> f Inr
        by (auto simp: create_or_update_user_from_data_def get_or_create_def Let_def)
      have s: "\<forall>x \<in> set tbl. user_id x \<noteq> uid \<longrightarrow> password x \<noteq> password (update_from_dict r d)"
        "t = update_where (\<lambda>x. user_id x = uid) (\<lambda>x. update_from_dict r d) tbl"
        using Inr id by (auto simp: save_def split: if_splits)
      show ?thesis using updated [OF \<open>d_user_id d = Some uid\<close> rin s(1)] r s(2) by simp
    qed
  qed
qed

lemma update_from_dict_idem: "update_from_dict (update_from_dict r d) d = update_from_dict r d"
  by (simp add: update_from_dict_def split: option.splits)

lemma map_user_id_update_where:
  "(\<And>x. c x \<Longrightarrow> user_id (f x) = user_id x) \<Longrightarrow> map user_id (update_where c f tbl) = map user_id tbl"
  by (induction tbl) (auto simp: update_where_def)

lemma distinct_map_insort_key:
  "distinct (map g (insort_key f x xs)) = (g x \<notin> g ` set xs \<and> distinct (map g xs))"
  by (induction xs) (auto simp: set_insort_key)

lemma constraints_hold_step:
  assumes "constraints_hold tbl" and "create_or_update_user_from_data dflt d tbl = (res, tbl')"
  shows "constraints_hold tbl'"
  using assms(2)
proof (cases rule: create_or_update_user_cases)
  case (failed e)
  then show ?thesis using assms(1) by simp
next
  case (created uid u)
  then show ?thesis using assms(1)
    by (auto simp: constraints_hold_def distinct_map_insort_key)
next
  case (updated uid r)
  let ?u = "update_from_dict r d"
  have ids: "map user_id tbl' = map user_id tbl"
    unfolding updated(6) by (rule map_user_id_update_where) (simp add: updated(3) update_from_dict_def)
  have d: "distinct (map user_id tbl)" "distinct (map password tbl)"
    using assms(1) by (simp_all add: constraints_hold_def)
  have same: "x = r" if "x \<in> set tbl" "user_id x = uid" for x
    using same_user_id_same_row [OF d(1) updated(2) that(1)] that(2) updated(3) by simp
  have "distinct (map password (update_where (\<lambda>x. user_id x = uid) (\<lambda>x. ?u) tbl))"
    using d updated(4) same
  proof (induction tbl)
    case Nil
    then show ?case by (simp add: update_where_def)
  next
    case (Cons a tbl)
    have ih: "distinct (map password (update_where (\<lambda>x. user_id x = uid) (\<lambda>x. ?u) tbl))"
      using Cons by simp
    have notin: "password (if user_id a = uid then ?u else a)
                   \<notin> set (map password (update_where (\<lambda>x. user_id x = uid) (\<lambda>x. ?u) tbl))"
    proof (cases "user_id a = uid")
      case True
      have "\<forall>x \<in> set tbl. user_id x \<noteq> uid" using Cons.prems(1) True by (auto simp: image_iff)
      then have "update_where (\<lambda>x. user_id x = uid) (\<lambda>x. ?u) tbl = tbl"
        unfolding update_where_def by (intro map_idI) simp
      moreover have "\<forall>x \<in> set tbl. password x \<noteq> password ?u"
        using Cons.prems(3) \<open>\<forall>x \<in> set tbl. user_id x \<noteq> uid\<close> by simp
      ultimately show ?thesis using True by (auto simp: image_iff)
    next
      case False
      have "password a \<noteq> password ?u" using Cons.prems(3) False by simp
      moreover have "password a \<notin> password ` set tbl" using Cons.prems(2) by simp
      ultimately show ?thesis using False by (auto simp: update_where_def image_iff)
    qed
    show ?case using ih notin by (simp add: update_where_def)
  qed
  then show ?thesis using ids d(1) updated(6) by (simp add: constraints_hold_def)
qed

lemma applied_after_success:
  assumes "create_or_update_user_from_data dflt d tbl = (Inr u, tbl')"
  shows "applied d tbl'"
  using assms
proof (cases rule: create_or_update_user_cases)
  case (created uid v)
  then show ?thesis by (auto simp: applied_def set_insort_key)
next
  case (updated uid r)
  let ?u = "update_from_dict r d"
  have "?u \<in> set tbl'" using updated(2,3,6) by (force simp: update_where_def image_iff)
  moreover have "d_user_id d = Some (user_id ?u)" using updated(1,3) by (simp add: update_from_dict_def)
  ultimately show ?thesis unfolding applied_def using update_from_dict_idem by blast
qed simp

lemma applied_kept:
  assumes "applied d tbl" and "create_or_update_user_from_data dflt d' tbl = (res, tbl')"
    and "d_user_id d' \<noteq> d_user_id d"
  shows "applied d tbl'"
  using assms(2)
proof (cases rule: create_or_update_user_cases)
  case (failed e)
  then show ?thesis using assms(1) by simp
next
  case (created uid u)
  then show ?thesis using assms(1) by (auto simp: applied_def set_insort_key)
next
  case (updated uid r)
  obtain x where x: "x \<in> set tbl" "d_user_id d = Some (user_id x)" "update_from_dict x d = x"
    using assms(1) by (auto simp: applied_def)
  have "user_id x \<noteq> uid" using x(2) updated(1) assms(3) by auto
  then have "x \<in> set tbl'" using x(1) updated(6) by (force simp: update_where_def image_iff)
  then show ?thesis using x(2,3) by (auto simp: applied_def)
qed

lemma applied_is_fixpoint:
  assumes "constraints_hold tbl" and "applied d tbl"
  shows "\<exists>r. create_or_update_user_from_data dflt d tbl = (Inr r, tbl)"
proof -
  obtain r where r: "r \<in> set tbl" "d_user_id d = Some (user_id r)" "update_from_dict r d = r"
    using assms(2) by (auto simp: applied_def)
  have d: "distinct (map user_id tbl)" "distinct (map password tbl)"
    using assms(1) by (simp_all add: constraints_hold_def)
  have f: "find (\<lambda>x. user_id x = user_id r) tbl = Some r"
    using find_user_id_distinct [OF d(1) r(1)] .
  have nc: "\<not> (\<exists>x \<in> set tbl. user_id x \<noteq> user_id r \<and> password x = password r)"
    using same_password_same_row [OF d(2) r(1)] by auto
  have s: "save r tbl = Inr tbl"
    using nc update_where_same_row [OF d(1) r(1)] by (simp add: save_def)
  show ?thesis
    using r(2,3) f s by (simp add: create_or_update_user_from_data_def get_or_create_def Let_def)
qed

lemma applied_all_is_fixpoint:
  "constraints_hold tbl \<Longrightarrow> \<forall>d \<in> set ds. applied d tbl \<Longrightarrow>
   create_or_update_from_json dflt ds tbl = (Inr (), tbl)"
proof (induction ds)
  case Nil
  then show ?case by simp
next
  case (Cons d ds)
  obtain r where "create_or_update_user_from_data dflt d tbl = (Inr r, tbl)"
    using applied_is_fixpoint [OF Cons.prems(1), where d = d and dflt = dflt] Cons.prems(2) by auto
  then show ?case using Cons by simp
qed

lemma create_or_update_from_json_again:
  assumes "constraints_hold tbl" and "distinct (map d_user_id (seen @ ds))"
    and "\<forall>d \<in> set seen. applied d tbl"
  shows "create_or_update_from_json dflt (seen @ ds) (snd (create_or_update_from_json dflt ds tbl))
           = create_or_update_from_json dflt ds tbl"
  using assms
proof (induction ds arbitrary: seen tbl)
  case Nil
  then show ?case by (simp add: applied_all_is_fixpoint)
next
  case (Cons d ds)
  obtain res tbl' where step: "create_or_update_user_from_data dflt d tbl = (res, tbl')"
    by (cases "create_or_update_user_from_data dflt d tbl")
  show ?case
  proof (cases res)
    case (Inl e)
    then have same: "tbl' = tbl"
      using create_or_update_user_rollback [of dflt d tbl e] step by simp
    have "create_or_update_from_json dflt seen tbl = (Inr (), tbl)"
      using applied_all_is_fixpoint [OF Cons.prems(1,3), of dflt] .
    then show ?thesis using step Inl same by (simp add: create_or_update_from_json_append)
  next
    case (Inr u)
    have c: "constraints_hold tbl'" using constraints_hold_step [OF Cons.prems(1) step] .
    have a: "applied d tbl'" using applied_after_success step Inr by simp
    have k: "\<forall>x \<in> set seen. applied x tbl'"
    proof
      fix x assume x: "x \<in> set seen"
      then have "d_user_id d \<noteq> d_user_id x" using Cons.prems(2) by (auto simp: image_iff)
      then show "applied x tbl'" using applied_kept [OF _ step] Cons.prems(3) x by blast
    qed
    have "create_or_update_from_json dflt ((seen @ [d]) @ ds) (snd (create_or_update_from_json dflt ds tbl'))
           = create_or_update_from_json dflt ds tbl'"
      using Cons.IH [where tbl = tbl' and seen = "seen @ [d]"] c a k Cons.prems(2) by simp
    then show ?thesis using step Inr by simp
  qed
qed

lemma swap_first: "create_or_update_from_json {} swap_payload [] = (Inr (), [swap_row 1 2 ''b'', swap_row 2 1 ''a''])"
  by (simp add: swap_payload_def swap_row_def create_or_update_user_from_data_def get_or_create_def
        create_def save_def update_from_dict_def update_where_def Let_def)

text \<open>
  Claim C8, as stated: applying a payload twice leaves the table as applying it once.
  The payload \<open>swap_payload\<close> applies in full to the empty table; applied again, its
  first record resets user 1, its second record then asks for the password user 2 now
  holds and raises, and the table differs from the one after the first application.
\<close>

theorem create_or_update_from_json_twice_counterexample:
  "create_or_update_from_json {} swap_payload [] = (Inr (), [swap_row 1 2 ''b'', swap_row 2 1 ''a''])
   \<and> create_or_update_from_json {} swap_payload (snd (create_or_update_from_json {} swap_payload []))
       = (Inl (IntegrityError ''UNIQUE constraint failed: user.password''),
          [swap_row 1 1 ''c'', swap_row 2 1 ''a''])"
  by (simp add: swap_first)
     (simp add: swap_payload_def swap_row_def create_or_update_user_from_data_def get_or_create_def
        create_def save_def update_from_dict_def update_where_def Let_def)

lemma kept_ids_update_where:
  "(\<And>x. c x \<Longrightarrow> user_id (f x) = user_id x) \<Longrightarrow>
   map user_id (filter (\<lambda>r. user_id r \<in> S) (update_where c f tbl))
     = map user_id (filter (\<lambda>r. user_id r \<in> S) tbl)"
  by (induction tbl) (auto simp: update_where_def)

lemma kept_ids_step:
  assumes "create_or_update_user_from_data dflt d tbl = (res, tbl')"
    and "map user_id (filter (\<lambda>r. user_id r \<in> S) tbl) = ids"
    and "S \<subseteq> set (map user_id tbl)"
  shows "map user_id (filter (\<lambda>r. user_id r \<in> S) tbl') = ids \<and> S \<subseteq> set (map user_id tbl')"
  using assms(1)
proof (cases rule: create_or_update_user_cases)
  case (failed e)
  then show ?thesis using assms(2,3) by simp
next
  case (created uid u)
  have "user_id u \<notin> S" using created(2,4) assms(3) by auto
  then have "filter (\<lambda>r. user_id r \<in> S) (insort_key user_id u tbl)
               = filter (\<lambda>r. user_id r \<in> S) tbl"
    by (simp add: filter_insort_triv)
  then show ?thesis using assms(2,3) created(8) by (auto simp: set_insort_key)
next
  case (updated uid r)
  have g: "user_id (update_from_dict r d) = user_id x" if "user_id x = uid" for x
    using that updated(3) by (simp add: update_from_dict_def)
  have "map user_id (filter (\<lambda>r. user_id r \<in> S) tbl')
          = map user_id (filter (\<lambda>r. user_id r \<in> S) tbl)"
    unfolding updated(6) by (rule kept_ids_update_where) (simp add: g)
  moreover have "map user_id tbl' = map user_id tbl"
    unfolding updated(6) by (rule map_user_id_update_where) (simp add: g)
  ultimately show ?thesis using assms(2,3) by simp
qed

lemma kept_ids_json:
  "map user_id (filter (\<lambda>r. user_id r \<in> S) tbl) = ids \<Longrightarrow> S \<subseteq> set (map user_id tbl) \<Longrightarrow>
   map user_id (filter (\<lambda>r. user_id r \<in> S) (snd (create_or_update_from_json dflt ds tbl))) = ids"
proof (induction ds arbitrary: tbl)
  case Nil
  then show ?case by simp
next
  case (Cons d ds)
  obtain res tbl' where step: "create_or_update_user_from_data dflt d tbl = (res, tbl')"
    by (cases "create_or_update_user_from_data dflt d tbl")
  note k = kept_ids_step [OF step Cons.prems]
  show ?case
  proof (cases res)
    case (Inl e)
    then show ?thesis using step k by simp
  next
    case (Inr u)
    then show ?thesis using step Cons.IH [of tbl'] k by simp
  qed
qed

text \<open>
  Claim C8, amended: on a table that satisfies its constraints, a payload that names no
  \<open>user_id\<close> twice has, applied a second time, the outcome of the first application and
  leaves the table the first application left. After any application the rows the table
  had are still there under their \<open>user_id\<close>, in their order.
\<close>

theorem create_or_update_from_json_idempotent:
  assumes "constraints_hold tbl" and "distinct (map d_user_id ds)"
  shows "create_or_update_from_json dflt ds (snd (create_or_update_from_json dflt ds tbl))
           = create_or_update_from_json dflt ds tbl
       \<and> map user_id (filter (\<lambda>r. user_id r \<in> set (map user_id tbl))
                          (snd (create_or_update_from_json dflt ds tbl)))
           = map user_id tbl"
proof -
  have "create_or_update_from_json dflt ([] @ ds) (snd (create_or_update_from_json dflt ds tbl))
           = create_or_update_from_json dflt ds tbl"
    by (rule create_or_update_from_json_again) (use assms in simp_all)
  moreover have "map user_id (filter (\<lambda>r. user_id r \<in> set (map user_id tbl)) tbl) = map user_id tbl"
    by (simp add: filter_id_conv)
  then have "map user_id (filter (\<lambda>r. user_id r \<in> set (map user_id tbl))
                          (snd (create_or_update_from_json dflt ds tbl)))
           = map user_id tbl"
    by (rule kept_ids_json) simp
  ultimately show ?thesis by simp
qed

lemma def_a_on_b: "create_or_update_from_json {} [def_a] [user_b] = (Inr (), [user_a, user_b])"
  by (simp add: create_or_update_user_from_data_def get_or_create_def create_def Let_def
        def_a_def user_a_def user_b_def)

theorem create_or_update_from_json_idempotent_witness:
  "constraints_hold [user_b] = True \<and> distinct (map d_user_id [def_a]) = True
   \<and> create_or_update_from_json {} [def_a] [user_b] = (Inr (), [user_a, user_b])
   \<and> create_or_update_from_json {} [def_a] [user_a, user_b] = (Inr (), [user_a, user_b])"
proof -
  have h1: "constraints_hold [user_b]" by (simp add: constraints_hold_def)
  have h2: "distinct (map d_user_id [def_a])" by simp
  have "create_or_update_from_json {} [def_a] (snd (create_or_update_from_json {} [def_a] [user_b]))
          = create_or_update_from_json {} [def_a] [user_b]"
    using create_or_update_from_json_idempotent [OF h1 h2] by blast
  then have "create_or_update_from_json {} [def_a] [user_a, user_b] = (Inr (), [user_a, user_b])"
    by (simp only: def_a_on_b snd_conv)
  then show ?thesis using h1 h2 def_a_on_b by (simp del: create_or_update_from_json.simps)
qed

subsection \<open>The sync flag\<close>

lemma distinct_ids_step:
  assumes "distinct (map user_id tbl)" and "create_or_update_user_from_data dflt d tbl = (res, tbl')"
  shows "distinct (map user_id tbl')"
  using assms(2)
proof (cases rule: create_or_update_user_cases)
  case (updated uid r)
  have "map user_id tbl' = map user_id tbl"
    unfolding updated(6) by (rule map_user_id_update_where) (simp add: updated(3) update_from_dict_def)
  then show ?thesis using assms(1) by simp
qed (use assms(1) in \<open>simp_all add: distinct_map_insort_key\<close>)

lemma distinct_ids_json:
  "distinct (map user_id tbl) \<Longrightarrow> distinct (map user_id (snd (create_or_update_from_json dflt ds tbl)))"
proof (induction ds arbitrary: tbl)
  case Nil
  then show ?case by simp
next
  case (Cons d ds)
  obtain res tbl' where step: "create_or_update_user_from_data dflt d tbl = (res, tbl')"
    by (cases "create_or_update_user_from_data dflt d tbl")
  have d: "distinct (map user_id tbl')" using distinct_ids_step [OF Cons.prems step] .
  show ?case
  proof (cases res)
    case (Inl e)
    then show ?thesis using step d by simp
  next
    case (Inr u)
    then show ?thesis using step Cons.IH [OF d] by simp
  qed
qed

lemma dirty_marked_step:
  assumes "dirty_marked tbl" and "create_or_update_user_from_data {} d tbl = (res, tbl')"
  shows "dirty_marked tbl'"
  using assms(2)
proof (cases rule: create_or_update_user_cases)
  case (failed e)
  then show ?thesis using assms(1) by simp
next
  case (created uid u)
  then show ?thesis using assms(1) by (auto simp: dirty_marked_def set_insort_key)
next
  case (updated uid r)
  let ?u = "update_from_dict r d"
  have "(ip_list ?u \<noteq> {} \<or> upload_traffic ?u \<noteq> 0 \<or> download_traffic ?u \<noteq> 0) \<longrightarrow> need_sync ?u"
    using assms(1) updated(2) by (simp add: dirty_marked_def update_from_dict_def)
  then show ?thesis using assms(1) unfolding updated(6) dirty_marked_def update_where_def
    by auto
qed

lemma dirty_marked_json:
  "dirty_marked tbl \<Longrightarrow> dirty_marked (snd (create_or_update_from_json {} ds tbl))"
proof (induction ds arbitrary: tbl)
  case Nil
  then show ?case by simp
next
  case (Cons d ds)
  obtain res tbl' where step: "create_or_update_user_from_data {} d tbl = (res, tbl')"
    by (cases "create_or_update_user_from_data {} d tbl")
  have d: "dirty_marked tbl'" using dirty_marked_step [OF Cons.prems step] .
  show ?case
  proof (cases res)
    case (Inl e)
    then show ?thesis using step d by simp
  next
    case (Inr u)
    then show ?thesis using step Cons.IH [OF d] by simp
  qed
qed

lemma flush_table:
  "snd (flush_metrics_to_remote request tbl) = snd (flush_select_and_reset tbl)"
  by (simp add: flush_metrics_to_remote_def split: prod.splits option.splits)

lemma trial_loop_match_in_cands:
  "snd (trial_loop cls ts data cands) = Inr (Some (u, c)) \<Longrightarrow> u \<in> set cands"
  by (induction cands)
     (auto split: sum.splits pyexc.splits list.splits if_splits prod.splits)

lemma list_by_port_from_row:
  assumes "mset (plan (filter (\<lambda>r. port r = p) tbl)) = mset (filter (\<lambda>r. port r = p) tbl)"
    and "u \<in> set (list_by_port plan p tbl)"
  shows "\<exists>r \<in> set tbl. u = select_fields r"
proof -
  have "set (plan (filter (\<lambda>r. port r = p) tbl)) = set (filter (\<lambda>r. port r = p) tbl)"
    using assms(1) by (rule mset_eq_setD)
  then show ?thesis using assms(2) by (auto simp: list_by_port_def)
qed

lemma dirty_marked_find:
  assumes "distinct (map user_id tbl)" and "dirty_marked tbl"
    and "mset (plan (filter (\<lambda>r. port r = p) tbl)) = mset (filter (\<lambda>r. port r = p) tbl)"
  shows "dirty_marked (snd (find_access_user_and_cipher_by_data plan p cls ts data fault tbl))"
proof (cases "snd (trial_loop cls ts data (list_by_port plan p tbl))")
  case (Inl e)
  then show ?thesis using assms(2) by (simp add: find_access_user_by_loop)
next
  case (Inr m)
  show ?thesis
  proof (cases m)
    case None
    then show ?thesis using Inr assms(2) by (simp add: find_access_user_by_loop)
  next
    case (Some uc)
    obtain u c where uc: "uc = (u, c)" by (cases uc)
    have "u \<in> set (list_by_port plan p tbl)"
      using trial_loop_match_in_cands Inr Some uc by metis
    then obtain r0 where r0: "r0 \<in> set tbl" "u = select_fields r0"
      using list_by_port_from_row [of plan p tbl, OF assms(3)] by blast
    have keep: "ip_list u = ip_list x" if "x \<in> set tbl" "user_id x = user_id u" for x
    proof -
      have "user_id x = user_id r0" using that(2) r0(2) by (simp add: select_fields_def)
      then have "x = r0" using same_user_id_same_row [OF assms(1) r0(1) that(1)] by simp
      then show ?thesis using r0(2) by (simp add: select_fields_def)
    qed
    have "dirty_marked (update_where (\<lambda>r. user_id r = user_id u)
                       (\<lambda>r. r\<lparr>method := m, password := pw, enable := b,
                              ip_list := ip_list u, access_order := k\<rparr>) tbl)" for m pw b k
      using assms(2) keep unfolding dirty_marked_def update_where_def by auto
    then show ?thesis using Inr Some uc assms(2)
      by (cases fault) (simp_all add: find_access_user_by_loop)
  qed
qed

lemma distinct_ids_find:
  assumes "distinct (map user_id tbl)"
  shows "distinct (map user_id (snd (find_access_user_and_cipher_by_data plan p cls ts data fault tbl)))"
proof -
  have "map user_id (snd (find_access_user_and_cipher_by_data plan p cls ts data fault tbl)) = map user_id tbl"
    by (auto simp: find_access_user_by_loop map_user_id_update_where
             split: sum.splits option.splits prod.splits)
  then show ?thesis using assms by simp
qed

lemma reachable_invariant:
  "reachable tbl \<Longrightarrow> distinct (map user_id tbl) \<and> dirty_marked tbl"
proof (induction rule: reachable.induct)
  case start
  then show ?case by (simp add: dirty_marked_def)
next
  case (definitions tbl ds)
  then show ?case using distinct_ids_json dirty_marked_json by blast
next
  case (flush tbl request)
  have "map user_id (snd (flush_metrics_to_remote request tbl)) = map user_id tbl"
    by (simp add: flush_table flush_select_and_reset_def map_user_id_update_where)
  moreover have "dirty_marked (snd (flush_metrics_to_remote request tbl))"
    using flush.IH
    by (auto simp: flush_table flush_select_and_reset_def dirty_marked_def update_where_def)
  ultimately show ?case using flush.IH by simp
next
  case (ip tbl self peername)
  have "map user_id (snd (snd (record_ip False self peername {} tbl))) = map user_id tbl"
    by (auto simp: record_ip_def map_user_id_update_where Let_def split: option.splits list.splits)
  moreover have "dirty_marked (snd (snd (record_ip False self peername {} tbl)))"
    using ip.IH
    by (auto simp: record_ip_def dirty_marked_def update_where_def Let_def split: option.splits list.splits)
  ultimately show ?case using ip.IH by simp
next
  case (traffic tbl self used_u used_d)
  have "map user_id (record_traffic self used_u used_d tbl) = map user_id tbl"
    by (simp add: record_traffic_def map_user_id_update_where)
  moreover have "dirty_marked (record_traffic self used_u used_d tbl)"
    using traffic.IH by (auto simp: record_traffic_def dirty_marked_def update_where_def)
  ultimately show ?case using traffic.IH by simp
next
  case (conn tbl self num)
  have "map user_id (incr_tcp_conn_num self num tbl) = map user_id tbl"
    by (simp add: incr_tcp_conn_num_def map_user_id_update_where)
  moreover have "dirty_marked (incr_tcp_conn_num self num tbl)"
    using conn.IH by (auto simp: incr_tcp_conn_num_def dirty_marked_def update_where_def)
  ultimately show ?case using conn.IH by simp
next
  case (find tbl plan p cipher_cls ts_protocol first_data fault)
  then show ?case using distinct_ids_find dirty_marked_find by blast
qed

text \<open>
  Outside those tables: \<open>record_ip\<close> on the instance that \<open>create\<close> built for A adds
  the address to the default object of line 31, and the row created for B afterwards
  starts with that address and is not marked for sync.
\<close>

lemma record_ip_on_created_instance_scenario:
  "create_or_update_user_from_data {} def_a [] = (Inr user_a, [user_a])
   \<and> record_ip True user_a (Some [''1.2.3.4'', ''50000'']) {} [user_a]
       = (user_a\<lparr>ip_list := {''1.2.3.4''}\<rparr>, {''1.2.3.4''},
          [user_a\<lparr>ip_list := {''1.2.3.4''}, need_sync := True\<rparr>])
   \<and> create_or_update_user_from_data {''1.2.3.4''} def_b
         [user_a\<lparr>ip_list := {''1.2.3.4''}, need_sync := True\<rparr>]
       = (Inr (user_b\<lparr>ip_list := {''1.2.3.4''}\<rparr>),
          [user_a\<lparr>ip_list := {''1.2.3.4''}, need_sync := True\<rparr>,
           user_b\<lparr>ip_list := {''1.2.3.4''}\<rparr>])"
  by (simp add: create_or_update_user_from_data_def get_or_create_def create_def Let_def
        record_ip_def update_where_def def_a_def def_b_def user_a_def user_b_def)

text \<open>
  Claim C3, as stated: in a reachable table a row is marked for sync if and only if its
  addresses or traffic counters are not at their default. After \<open>incr_tcp_conn_num\<close> on
  the freshly created A the row is marked, with all three at their default.
\<close>

theorem dirty_flag_counterexample:
  "reachable (incr_tcp_conn_num (select_fields user_a) 1 (snd (create_or_update_from_json {} [def_a] [])))
   \<and> incr_tcp_conn_num (select_fields user_a) 1 (snd (create_or_update_from_json {} [def_a] []))
       = [user_a\<lparr>need_sync := True, tcp_conn_num := 1\<rparr>]
   \<and> need_sync (user_a\<lparr>need_sync := True, tcp_conn_num := 1\<rparr>) = True
   \<and> ip_list (user_a\<lparr>need_sync := True, tcp_conn_num := 1\<rparr>) = {}
   \<and> upload_traffic (user_a\<lparr>need_sync := True, tcp_conn_num := 1\<rparr>) = 0
   \<and> download_traffic (user_a\<lparr>need_sync := True, tcp_conn_num := 1\<rparr>) = 0"
proof -
  have "reachable (incr_tcp_conn_num (select_fields user_a) 1 (snd (create_or_update_from_json {} [def_a] [])))"
    by (intro reachable.conn reachable.definitions reachable.start)
  moreover have "incr_tcp_conn_num (select_fields user_a) 1 (snd (create_or_update_from_json {} [def_a] []))
       = [user_a\<lparr>need_sync := True, tcp_conn_num := 1\<rparr>]"
    by (simp add: create_or_update_user_from_data_def get_or_create_def create_def Let_def
        def_a_def user_a_def incr_tcp_conn_num_def update_where_def select_fields_def)
  ultimately show ?thesis by (simp add: user_a_def)
qed

text \<open>
  Claim C3, amended: in a table reached while \<open>record_ip\<close> is called on instances
  loaded by a query only, a row whose addresses or traffic counters are not at their
  default is marked for sync (the converse fails: \<open>incr_tcp_conn_num\<close> marks a row too).
  On such a table the flush, whatever the request does, resets in every row exactly
  \<open>ip_list\<close>, \<open>upload_traffic\<close>, \<open>download_traffic\<close> and \<open>need_sync\<close>, and leaves
  every other column as it was.
\<close>

theorem dirty_marked_and_flush_resets:
  assumes "reachable tbl"
  shows "(\<forall>r \<in> set tbl.
            (ip_list r \<noteq> {} \<or> upload_traffic r \<noteq> 0 \<or> download_traffic r \<noteq> 0) \<longrightarrow> need_sync r)
       \<and> snd (flush_metrics_to_remote request tbl)
           = map (\<lambda>r. r\<lparr>ip_list := {}, upload_traffic := 0, download_traffic := 0,
                        need_sync := False\<rparr>) tbl"
proof -
  have inv: "dirty_marked tbl" using reachable_invariant [OF assms] by simp
  have "(if need_sync r then r\<lparr>ip_list := {}, upload_traffic := 0, download_traffic := 0,
                                need_sync := False\<rparr> else r)
          = r\<lparr>ip_list := {}, upload_traffic := 0, download_traffic := 0, need_sync := False\<rparr>"
    if "r \<in> set tbl" for r
    using inv that by (auto simp: dirty_marked_def)
  then have "snd (flush_metrics_to_remote request tbl)
           = map (\<lambda>r. r\<lparr>ip_list := {}, upload_traffic := 0, download_traffic := 0,
                        need_sync := False\<rparr>) tbl"
    by (simp add: flush_table flush_select_and_reset_def update_where_def)
  then show ?thesis using inv by (simp add: dirty_marked_def)
qed

theorem dirty_marked_and_flush_resets_witness:
  "reachable (record_traffic (select_fields user_a) 100 200 (snd (create_or_update_from_json {} [def_a] [])))
   \<and> record_traffic (select_fields user_a) 100 200 (snd (create_or_update_from_json {} [def_a] []))
       = [user_a\<lparr>need_sync := True, upload_traffic := 100, download_traffic := 200\<rparr>]
   \<and> snd (flush_metrics_to_remote (\<lambda>users. None)
            (record_traffic (select_fields user_a) 100 200 (snd (create_or_update_from_json {} [def_a] []))))
       = [user_a]"
proof -
  let ?tbl = "record_traffic (select_fields user_a) 100 200 (snd (create_or_update_from_json {} [def_a] []))"
  have r: "reachable ?tbl"
    by (intro reachable.traffic reachable.definitions reachable.start)
  have t: "?tbl = [user_a\<lparr>need_sync := True, upload_traffic := 100, download_traffic := 200\<rparr>]"
    by (simp add: create_or_update_user_from_data_def get_or_create_def create_def Let_def
        def_a_def user_a_def record_traffic_def update_where_def select_fields_def)
  have "snd (flush_metrics_to_remote (\<lambda>users. None) ?tbl)
       = map (\<lambda>r. r\<lparr>ip_list := {}, upload_traffic := 0, download_traffic := 0,
                        need_sync := False\<rparr>) ?tbl"
    using dirty_marked_and_flush_resets [OF r, of "\<lambda>users. None"] by blast
  then have "snd (flush_metrics_to_remote (\<lambda>users. None) ?tbl) = [user_a]"
    unfolding t by (simp add: user_a_def)
  then show ?thesis using r t by simp
qed

end
